theory Spec2Isabelle
  imports Complex_Main "HOL-Library.Product_Lexorder"
begin

section \<open>Python values shared by both modules\<close>

text \<open>
  Both modules raise \<^verbatim>\<open>ValueError\<close> with a message; the only other exception the
  modelled code can raise is the \<^verbatim>\<open>ZeroDivisionError\<close> of a true division.
  Python floats are modelled as reals (with the two infinities and NaN kept apart where a
  caller can supply them); strings are ASCII character lists.
\<close>

datatype error = ValueError string | ZeroDivisionError

definition EmptyInput :: "string \<Rightarrow> error" where
  "EmptyInput name = ValueError (name @ '' nao pode ser vazio'')"

definition InvalidThreshold :: error where
  "InvalidThreshold = ValueError ''Threshold deve ser numerico.''"

definition MotifTooLong :: error where
  "MotifTooLong = ValueError ''Motif precisa ser menor ou igual ao genoma.''"

definition NoOccurrence :: error where
  "NoOccurrence = ValueError ''Motif nao aparece no genoma.''"

definition py_truediv :: "int \<Rightarrow> int \<Rightarrow> error + real" where
  "py_truediv a b = (if b = 0 then Inl ZeroDivisionError else Inr (real_of_int a / real_of_int b))"

text \<open>The slice \<^verbatim>\<open>s[i:j]\<close> for \<open>0 \<le> i \<le> j\<close>; Python clips it at the end of \<open>s\<close>.\<close>

definition slice :: "'a list \<Rightarrow> nat \<Rightarrow> nat \<Rightarrow> 'a list" where
  "slice s i j = take (j - i) (drop i s)"

section \<open>blast_search.py\<close>

subsection \<open>Constants and the MatchWindow dataclass\<close>

definition MATCH_REWARD :: int where
  "MATCH_REWARD = 2"

definition MISMATCH_PENALTY :: int where
  "MISMATCH_PENALTY = - 1"

record MatchWindow =
  mw_index :: int
  mw_window :: string
  mw_identity :: real
  mw_matches :: int
  mw_score :: int

text \<open>The dictionary built by \<^verbatim>\<open>MatchWindow.to_dict\<close>, one field per key.\<close>

record window_dict =
  index :: int
  window :: string
  identity :: real
  matches :: int
  score :: int
  is_perfect :: bool

definition to_dict :: "MatchWindow \<Rightarrow> window_dict" where
  "to_dict self =
     \<lparr> index = mw_index self,
       window = mw_window self,
       identity = mw_identity self,
       matches = mw_matches self,
       score = mw_score self,
       is_perfect = (mw_matches self = int (length (mw_window self))) \<rparr>"

subsection \<open>Normalisation: \<^verbatim>\<open>seq.strip().upper()\<close>\<close>

text \<open>
  On ASCII text \<^verbatim>\<open>str.strip()\<close> removes the characters for which
  \<^verbatim>\<open>str.isspace\<close> holds (codes 9 to 13, 28 to 31 and 32) from both ends, and
  \<^verbatim>\<open>str.upper()\<close> maps \<open>a..z\<close> to \<open>A..Z\<close> and leaves every other character.
\<close>

definition is_space :: "char \<Rightarrow> bool" where
  "is_space c = (let n = (of_char c :: nat) in (9 \<le> n \<and> n \<le> 13) \<or> (28 \<le> n \<and> n \<le> 32))"

definition upper_char :: "char \<Rightarrow> char" where
  "upper_char c = (let n = (of_char c :: nat) in if 97 \<le> n \<and> n \<le> 122 then char_of (n - 32) else c)"

definition strip :: "string \<Rightarrow> string" where
  "strip s = rev (dropWhile is_space (rev (dropWhile is_space s)))"

definition upper :: "string \<Rightarrow> string" where
  "upper s = map upper_char s"

text \<open>
  \<^verbatim>\<open>_clean_sequence(seq, name)\<close>. The argument is optional because the function
  tests \<^verbatim>\<open>seq is None\<close> before it touches the string.
\<close>

definition clean_sequence :: "string option \<Rightarrow> string \<Rightarrow> error + string" where
  "clean_sequence seq name =
     (case seq of
        None \<Rightarrow> Inl (EmptyInput name)
      | Some s \<Rightarrow>
          (let cleaned = upper (strip s)
           in if cleaned = [] then Inl (EmptyInput name) else Inr cleaned))"

subsection \<open>Scoring one window\<close>

text \<open>
  \<^verbatim>\<open>_score_window(window, motif)\<close>: \<^verbatim>\<open>zip\<close> stops at the shorter argument, the
  true division raises on an empty motif, and the index is left at \<open>-1\<close> for the caller.
\<close>

definition score_window :: "string \<Rightarrow> string \<Rightarrow> error + MatchWindow" where
  "score_window w motif =
     (let m = int (length (filter (\<lambda>(a, b). a = b) (zip w motif)))
      in case py_truediv m (int (length motif)) of
           Inl e \<Rightarrow> Inl e
         | Inr q \<Rightarrow>
             (let ident = q * 100;
                  mismatches = int (length motif) - m;
                  sc = m * MATCH_REWARD + mismatches * MISMATCH_PENALTY
              in Inr \<lparr> mw_index = - 1, mw_window = w, mw_identity = ident,
                       mw_matches = m, mw_score = sc \<rparr>))"

subsection \<open>The threshold\<close>

text \<open>
  \<^verbatim>\<open>float(threshold)\<close> either yields a float or raises; \<open>NonNumeric\<close> stands for
  every argument on which it raises \<^verbatim>\<open>TypeError\<close> or \<^verbatim>\<open>ValueError\<close>.
\<close>

datatype pyfloat = Finite real | PosInf | NegInf | NaN

datatype threshold_arg = Numeric pyfloat | NonNumeric

definition coerce_float :: "threshold_arg \<Rightarrow> error + pyfloat" where
  "coerce_float t = (case t of Numeric v \<Rightarrow> Inr v | NonNumeric \<Rightarrow> Inl InvalidThreshold)"

text \<open>\<^verbatim>\<open>x >= t\<close> for a finite float \<open>x\<close>: every comparison with NaN is false.\<close>

fun float_ge :: "real \<Rightarrow> pyfloat \<Rightarrow> bool" where
  "float_ge x (Finite t) = (t \<le> x)"
| "float_ge x PosInf = False"
| "float_ge x NegInf = True"
| "float_ge x NaN = False"

subsection \<open>blast_search\<close>

record blast_result =
  threshold :: pyfloat
  genome_length :: nat
  motif_length :: nat
  hit_count :: nat
  hits :: "window_dict list"
  top_hit :: "window_dict option"
  all_windows :: "window_dict list"

text \<open>
  The body of the \<^verbatim>\<open>for idx in range(...)\<close> loop, over the indices still to visit;
  the accumulator is the pair of lists \<^verbatim>\<open>windows\<close> and \<^verbatim>\<open>hits\<close>.
\<close>

fun blast_loop ::
  "string \<Rightarrow> string \<Rightarrow> pyfloat \<Rightarrow> nat list \<Rightarrow> window_dict list \<times> window_dict list
     \<Rightarrow> error + (window_dict list \<times> window_dict list)" where
  "blast_loop genome motif tv [] acc = Inr acc"
| "blast_loop genome motif tv (idx # rest) (windows, hs) =
     (case score_window (slice genome idx (idx + length motif)) motif of
        Inl e \<Rightarrow> Inl e
      | Inr scored0 \<Rightarrow>
          (let scored = scored0 \<lparr> mw_index := int idx \<rparr>;
               scored_dict = to_dict scored;
               windows' = windows @ [scored_dict];
               hs' = (if float_ge (mw_identity scored) tv then hs @ [scored_dict] else hs)
           in blast_loop genome motif tv rest (windows', hs')))"

text \<open>The sort key \<^verbatim>\<open>(item["identity"], item["score"], -item["index"])\<close>, compared as tuples.\<close>

definition sort_key_of :: "window_dict \<Rightarrow> real \<times> int \<times> int" where
  "sort_key_of item = (identity item, score item, - index item)"

text \<open>
  \<^verbatim>\<open>list.sort(key=k, reverse=True)\<close> is stable: it orders by descending key and keeps
  elements with equal keys in their original order, which is a stable ascending sort of
  the reversed list, reversed again.
\<close>

definition sort_reverse :: "('a \<Rightarrow> 'k::linorder) \<Rightarrow> 'a list \<Rightarrow> 'a list" where
  "sort_reverse k xs = rev (sort_key k (rev xs))"

definition blast_search :: "string \<Rightarrow> string \<Rightarrow> threshold_arg \<Rightarrow> error + blast_result" where
  "blast_search genome0 motif0 thr =
     (case clean_sequence (Some genome0) ''Genoma'' of
        Inl e \<Rightarrow> Inl e
      | Inr genome \<Rightarrow>
     (case clean_sequence (Some motif0) ''Motif'' of
        Inl e \<Rightarrow> Inl e
      | Inr motif \<Rightarrow>
     (case coerce_float thr of
        Inl e \<Rightarrow> Inl e
      | Inr threshold_value \<Rightarrow>
          if length motif > length genome then Inl MotifTooLong
          else
            (case blast_loop genome motif threshold_value
                    [0 ..< length genome - length motif + 1] ([], []) of
               Inl e \<Rightarrow> Inl e
             | Inr (windows, hs) \<Rightarrow>
                 (let sorted_hits = sort_reverse sort_key_of hs
                  in Inr \<lparr> threshold = threshold_value,
                           genome_length = length genome,
                           motif_length = length motif,
                           hit_count = length sorted_hits,
                           hits = sorted_hits,
                           top_hit = (case sorted_hits of [] \<Rightarrow> None | h # _ \<Rightarrow> Some h),
                           all_windows = windows \<rparr>)))))"

subsection \<open>compare_methods\<close>

definition msg_full_agreement :: string where
  "msg_full_agreement = ''Os dois metodos concordaram totalmente nas posicoes encontradas.''"

definition msg_partial_agreement :: string where
  "msg_partial_agreement =
     ''Metodos possuem intersecao parcial; investigue indices exclusivos '' @
     ''para entender diferencas nos criterios.''"

definition msg_only_grover :: string where
  "msg_only_grover = ''Somente Grover encontrou padroes; considere reduzir o limiar do BLAST.''"

definition msg_only_blast :: string where
  "msg_only_blast = ''Somente o BLAST passou do limiar; verifique a precisao quantica.''"

definition msg_neither :: string where
  "msg_neither = ''Nenhum dos metodos encontrou o motif com os parametros atuais.''"

text \<open>\<^verbatim>\<open>_build_analysis_message\<close>: a list is true when it is not empty.\<close>

definition build_analysis_message :: "int list \<Rightarrow> int list \<Rightarrow> int list \<Rightarrow> string" where
  "build_analysis_message overlap grover_only blast_only =
     (if overlap \<noteq> [] \<and> \<not> (grover_only \<noteq> [] \<or> blast_only \<noteq> []) then msg_full_agreement
      else if overlap \<noteq> [] then msg_partial_agreement
      else if grover_only \<noteq> [] \<and> \<not> blast_only \<noteq> [] then msg_only_grover
      else if blast_only \<noteq> [] \<and> \<not> grover_only \<noteq> [] then msg_only_blast
      else msg_neither)"

record analysis_dict =
  overlap_indices :: "int list"
  grover_only :: "int list"
  blast_only :: "int list"
  agreement_ratio :: real
  message :: string

text \<open>
  Lines 106 to 124 of \<^verbatim>\<open>compare_methods\<close>: the two index lists become sets, and the
  report is computed from the sets alone. The only operation that can raise is the division.
\<close>

definition analyse :: "int list \<Rightarrow> int list \<Rightarrow> error + analysis_dict" where
  "analyse good_list blast_list =
     (let grover_hits = set good_list;
          blast_hits = set blast_list;
          overlap = sorted_list_of_set (grover_hits \<inter> blast_hits);
          g_only = sorted_list_of_set (grover_hits - blast_hits);
          b_only = sorted_list_of_set (blast_hits - grover_hits);
          un = grover_hits \<union> blast_hits
      in case (if un \<noteq> {} then py_truediv (int (length overlap)) (int (card un))
               else Inr 0) of
           Inl e \<Rightarrow> Inl e
         | Inr ratio \<Rightarrow>
             Inr \<lparr> overlap_indices = overlap,
                   grover_only = g_only,
                   blast_only = b_only,
                   agreement_ratio = ratio,
                   message = build_analysis_message overlap g_only b_only \<rparr>)"

text \<open>
  The \<^verbatim>\<open>grover_results\<close> dictionary is read with \<^verbatim>\<open>.get\<close>, so each key may be
  absent.
\<close>

record grover_results =
  gr_accuracy :: "real option"
  gr_good_indices :: "int list option"
  gr_total_windows :: "int option"

record grover_summary =
  gs_accuracy :: "real option"
  gs_good_indices :: "int list"
  gs_total_windows :: "int option"

record comparison =
  grover :: grover_summary
  blast :: blast_result
  analysis :: analysis_dict

text \<open>\<^verbatim>\<open>grover_results.get("good_indices", [])\<close>.\<close>

definition get_good_indices :: "grover_results \<Rightarrow> int list" where
  "get_good_indices gr = (case gr_good_indices gr of None \<Rightarrow> [] | Some xs \<Rightarrow> xs)"

definition compare_methods ::
  "string \<Rightarrow> string \<Rightarrow> grover_results \<Rightarrow> threshold_arg \<Rightarrow> error + comparison" where
  "compare_methods genome motif gr blast_threshold =
     (case blast_search genome motif blast_threshold of
        Inl e \<Rightarrow> Inl e
      | Inr blast_results \<Rightarrow>
          (let good = get_good_indices gr
           in case analyse good (map index (hits blast_results)) of
                Inl e \<Rightarrow> Inl e
              | Inr a \<Rightarrow>
                  Inr \<lparr> grover = \<lparr> gs_accuracy = gr_accuracy gr,
                                   gs_good_indices = good,
                                   gs_total_windows = gr_total_windows gr \<rparr>,
                        blast = blast_results,
                        analysis = a \<rparr>))"

section \<open>grover_genomics_demo.py\<close>

text \<open>
  \<^verbatim>\<open>classical_find_occurrences\<close>: \<^verbatim>\<open>range\<close> of a number below one is empty, and
  the inputs are used as they are given.
\<close>

definition classical_find_occurrences :: "string \<Rightarrow> string \<Rightarrow> string list \<times> nat list" where
  "classical_find_occurrences genome motif =
     (let L = length motif;
          windows = map (\<lambda>i. slice genome i (i + L))
                      [0 ..< nat (int (length genome) - int L + 1)];
          good = map fst (filter (\<lambda>(i, w). w = motif) (enumerate 0 windows))
      in (windows, good))"

text \<open>
  The number of qubits \<^verbatim>\<open>math.ceil(math.log2(N))\<close> for \<open>N \<ge> 1\<close> is the bit length
  of \<open>N - 1\<close>; a width of zero is raised to one.
\<close>

fun bit_length :: "nat \<Rightarrow> nat" where
  "bit_length n = (if n = 0 then 0 else Suc (bit_length (n div 2)))"

declare bit_length.simps [simp del]

definition qubits :: "nat \<Rightarrow> nat" where
  "qubits N = (let n = bit_length (N - 1) in if n = 0 then 1 else n)"

text \<open>
  The amplitude amplification and its sampler are an external collaborator. A sampler is
  any function from the number of invocations made before, the marked indices and the
  width to the index measured, so that every sequence of outcomes is some sampler; the
  number of invocations is threaded through as state.
\<close>

type_synonym sampler = "nat \<Rightarrow> nat list \<Rightarrow> nat \<Rightarrow> nat"

definition grover_once ::
  "sampler \<Rightarrow> nat \<Rightarrow> string \<Rightarrow> string \<Rightarrow> (error + (nat \<times> nat list \<times> string list)) \<times> nat" where
  "grover_once smp calls genome motif =
     (let (windows, good) = classical_find_occurrences genome motif;
          N = length windows
      in if good = [] then (Inl NoOccurrence, calls)
         else (Inr (smp calls good (qubits N), good, windows), Suc calls))"

text \<open>
  A \<^verbatim>\<open>Counter\<close> keeps its keys in insertion order; \<^verbatim>\<open>counts[idx] += 1\<close> reads a
  missing key as zero.
\<close>

fun counter_incr :: "'k \<Rightarrow> ('k \<times> nat) list \<Rightarrow> ('k \<times> nat) list" where
  "counter_incr k [] = [(k, 1)]"
| "counter_incr k ((k', c) # rest) =
     (if k = k' then (k', c + 1) # rest else (k', c) # counter_incr k rest)"

text \<open>
  The loop of \<^verbatim>\<open>run_trials\<close> with the trials still to run, the invocations made so
  far, and the loop variables \<^verbatim>\<open>hits\<close>, \<^verbatim>\<open>counts\<close> and \<^verbatim>\<open>sample_good\<close>.
\<close>

fun run_trials_loop ::
  "sampler \<Rightarrow> string \<Rightarrow> string \<Rightarrow> nat \<Rightarrow> nat \<Rightarrow> nat \<Rightarrow> (nat \<times> nat) list \<Rightarrow> nat list option
     \<Rightarrow> (error + (nat \<times> (nat \<times> nat) list \<times> nat list option)) \<times> nat" where
  "run_trials_loop smp genome motif 0 calls hts counts sample_good =
     (Inr (hts, counts, sample_good), calls)"
| "run_trials_loop smp genome motif (Suc k) calls hts counts sample_good =
     (case grover_once smp calls genome motif of
        (Inl e, calls') \<Rightarrow> (Inl e, calls')
      | (Inr (idx, good_indices, windows), calls') \<Rightarrow>
          run_trials_loop smp genome motif k calls'
            (if idx \<in> set good_indices then hts + 1 else hts)
            (counter_incr idx counts)
            (Some good_indices))"

text \<open>
  \<^verbatim>\<open>run_trials\<close>: the result, or the exception, paired with the number of sampler
  invocations made. \<^verbatim>\<open>range(trials)\<close> is empty for \<open>trials \<le> 0\<close>.
\<close>

definition run_trials ::
  "sampler \<Rightarrow> string \<Rightarrow> string \<Rightarrow> int
     \<Rightarrow> (error + (real \<times> (nat \<times> nat) list \<times> nat list option)) \<times> nat" where
  "run_trials smp genome motif trials =
     (case run_trials_loop smp genome motif (nat trials) 0 0 [] None of
        (Inl e, calls) \<Rightarrow> (Inl e, calls)
      | (Inr (hts, counts, sample_good), calls) \<Rightarrow>
          (case py_truediv (int hts) trials of
             Inl e \<Rightarrow> (Inl e, calls)
           | Inr acc \<Rightarrow> (Inr (acc, counts, sample_good), calls)))"

text \<open>\<^verbatim>\<open>total_shots = sum(counts.values())\<close>, as \<^verbatim>\<open>build_results\<close> computes it.\<close>

definition total_shots :: "('k \<times> nat) list \<Rightarrow> nat" where
  "total_shots counts = sum_list (map snd counts)"

text \<open>A deterministic stub sampler that always measures the same index.\<close>

definition const_sampler :: "nat \<Rightarrow> sampler" where
  "const_sampler i calls good n = i"

section \<open>Closed forms used in the proofs\<close>

text \<open>
  The dictionary that one pass of the loop of \<^verbatim>\<open>blast_search\<close> appends for the window
  at \<open>idx\<close>, and the list \<^verbatim>\<open>hits\<close> as the loop leaves it, before it is sorted.
\<close>

definition scored_dict :: "string \<Rightarrow> string \<Rightarrow> nat \<Rightarrow> window_dict" where
  "scored_dict genome motif idx =
     (let w = slice genome idx (idx + length motif);
          m = int (length (filter (\<lambda>(a, b). a = b) (zip w motif)))
      in \<lparr> index = int idx, window = w,
           identity = real_of_int m / real (length motif) * 100,
           matches = m,
           score = m * 2 + (int (length motif) - m) * (- 1),
           is_perfect = (m = int (length w)) \<rparr>)"

definition threshold_hits :: "string \<Rightarrow> string \<Rightarrow> pyfloat \<Rightarrow> window_dict list" where
  "threshold_hits genome motif tv =
     filter (\<lambda>d. float_ge (identity d) tv)
       (map (scored_dict genome motif) [0 ..< length genome - length motif + 1])"

text \<open>
  The ranking of two hits: higher identity first, then higher score, then lower index.
\<close>

definition ranked_before :: "window_dict \<Rightarrow> window_dict \<Rightarrow> bool" where
  "ranked_before a b =
     (identity a > identity b \<or>
      (identity a = identity b \<and>
        (score a > score b \<or> (score a = score b \<and> index a < index b))))"

text \<open>The ratio of the sizes of the intersection and the union of two finite sets.\<close>

definition jaccard :: "int set \<Rightarrow> int set \<Rightarrow> real" where
  "jaccard A B = (if A \<union> B = {} then 0 else real (card (A \<inter> B)) / real (card (A \<union> B)))"

text \<open>
  The outcomes of the first \<open>T\<close> sampler invocations that \<^verbatim>\<open>run_trials\<close> makes on a
  genome and a motif.
\<close>

definition outcomes :: "sampler \<Rightarrow> string \<Rightarrow> string \<Rightarrow> nat \<Rightarrow> nat list" where
  "outcomes smp genome motif T =
     (let (windows, good) = classical_find_occurrences genome motif
      in map (\<lambda>k. smp k good (qubits (length windows))) [0 ..< T])"

section \<open>The loop of blast_search\<close>

lemma score_window_to_dict:
  assumes "motif \<noteq> []"
  shows "\<exists>s. score_window (slice genome idx (idx + length motif)) motif = Inr s \<and>
             to_dict (s \<lparr> mw_index := int idx \<rparr>) = scored_dict genome motif idx \<and>
             mw_identity s = identity (scored_dict genome motif idx)"
  using assms
  by (simp add: score_window_def py_truediv_def to_dict_def scored_dict_def Let_def
        MATCH_REWARD_def MISMATCH_PENALTY_def)

lemma blast_loop_eq:
  assumes "motif \<noteq> []"
  shows "blast_loop genome motif tv idxs (ws, hs) =
           Inr (ws @ map (scored_dict genome motif) idxs,
                hs @ filter (\<lambda>d. float_ge (identity d) tv) (map (scored_dict genome motif) idxs))"
proof (induction idxs arbitrary: ws hs)
  case Nil
  show ?case by simp
next
  case (Cons idx rest)
  obtain s where s: "score_window (slice genome idx (idx + length motif)) motif = Inr s"
    "to_dict (s \<lparr> mw_index := int idx \<rparr>) = scored_dict genome motif idx"
    "mw_identity s = identity (scored_dict genome motif idx)"
    using score_window_to_dict[OF assms] by blast
  show ?case
    by (simp add: s Let_def Cons.IH)
qed

lemma clean_sequence_Some:
  "clean_sequence (Some s) name =
     (if upper (strip s) = [] then Inl (EmptyInput name) else Inr (upper (strip s)))"
  by (simp add: clean_sequence_def Let_def)

lemma blast_search_Inr:
  assumes "blast_search genome0 motif0 thr = Inr r"
  defines "genome \<equiv> upper (strip genome0)" and "motif \<equiv> upper (strip motif0)"
  shows "motif \<noteq> [] \<and> length motif \<le> length genome \<and>
         thr = Numeric (threshold r) \<and>
         genome_length r = length genome \<and> motif_length r = length motif \<and>
         all_windows r = map (scored_dict genome motif) [0 ..< length genome - length motif + 1] \<and>
         hits r = sort_reverse sort_key_of (threshold_hits genome motif (threshold r)) \<and>
         hit_count r = length (hits r) \<and>
         top_hit r = (case hits r of [] \<Rightarrow> None | h # _ \<Rightarrow> Some h)"
proof -
  from assms(1) have g: "genome \<noteq> []" and m: "motif \<noteq> []"
    by (auto simp: blast_search_def clean_sequence_Some genome_def motif_def split: if_splits)
  from assms(1) g m obtain tv where tv: "thr = Numeric tv"
    by (cases thr) (auto simp: blast_search_def clean_sequence_Some genome_def motif_def coerce_float_def)
  from assms(1) g m tv have len: "length motif \<le> length genome"
    by (auto simp: blast_search_def clean_sequence_Some genome_def motif_def coerce_float_def split: if_splits)
  from assms(1) g m tv len show ?thesis
    unfolding blast_search_def clean_sequence_Some genome_def[symmetric] motif_def[symmetric]
    by (auto simp: coerce_float_def blast_loop_eq[OF m] Let_def threshold_hits_def)
qed

lemma blast_search_succeeds:
  assumes "upper (strip genome0) = genome" "upper (strip motif0) = motif"
    "motif \<noteq> []" "length motif \<le> length genome"
  shows "\<exists>r. blast_search genome0 motif0 (Numeric tv) = Inr r \<and> threshold r = tv"
proof -
  from assms have g: "genome \<noteq> []" by auto
  show ?thesis
    using assms g
    by (simp add: blast_search_def clean_sequence_Some coerce_float_def blast_loop_eq Let_def)
qed

section \<open>Scored windows\<close>

lemma matches_eq_length_iff:
  assumes "length w = length motif"
  shows "length (filter (\<lambda>(a, b). a = b) (zip w motif)) = length motif \<longleftrightarrow> w = motif"
  using assms
proof (induction w motif rule: list_induct2)
  case Nil
  show ?case by simp
next
  case (Cons x xs y ys)
  have le: "length (filter (\<lambda>(a, b). a = b) (zip xs ys)) \<le> length ys"
    using length_filter_le[of "\<lambda>(a, b). a = b" "zip xs ys"] Cons.hyps by simp
  show ?case
  proof (cases "x = y")
    case True
    with Cons.IH show ?thesis by simp
  next
    case False
    with le show ?thesis by simp
  qed
qed

lemma matches_le_length:
  "length (filter (\<lambda>(a, b). a = b) (zip w motif)) \<le> length motif"
  using length_filter_le[of "\<lambda>(a, b). a = b" "zip w motif"] by simp

lemma length_slice:
  assumes "idx + n \<le> length genome"
  shows "length (slice genome idx (idx + n)) = n"
  using assms by (simp add: slice_def)

lemma index_scored_dict [simp]: "index (scored_dict genome motif idx) = int idx"
  by (simp add: scored_dict_def Let_def)

lemma window_scored_dict [simp]:
  "window (scored_dict genome motif idx) = slice genome idx (idx + length motif)"
  by (simp add: scored_dict_def Let_def)

lemma matches_scored_dict:
  "matches (scored_dict genome motif idx) =
     int (length (filter (\<lambda>(a, b). a = b) (zip (slice genome idx (idx + length motif)) motif)))"
  by (simp add: scored_dict_def Let_def)

lemma identity_scored_dict:
  "identity (scored_dict genome motif idx) =
     real_of_int (matches (scored_dict genome motif idx)) / real (length motif) * 100"
  by (simp add: scored_dict_def Let_def)

lemma score_scored_dict:
  "score (scored_dict genome motif idx) =
     matches (scored_dict genome motif idx) * 2 +
     (int (length motif) - matches (scored_dict genome motif idx)) * (- 1)"
  by (simp add: scored_dict_def Let_def)

lemma is_perfect_scored_dict:
  "is_perfect (scored_dict genome motif idx) =
     (matches (scored_dict genome motif idx) = int (length (slice genome idx (idx + length motif))))"
  by (simp add: scored_dict_def Let_def)

lemma matches_bounds:
  "0 \<le> matches (scored_dict genome motif idx) \<and>
   matches (scored_dict genome motif idx) \<le> int (length motif)"
  using matches_le_length[of "slice genome idx (idx + length motif)" motif]
  by (simp add: matches_scored_dict)

lemma percent_bounds:
  fixes x l :: real
  assumes "0 < l" "0 \<le> x" "x \<le> l"
  shows "0 \<le> x / l * 100 \<and> x / l * 100 \<le> 100"
  using assms by (simp add: field_simps)

lemma percent_full_iff:
  fixes x l :: real
  assumes "0 < l"
  shows "x / l * 100 = 100 \<longleftrightarrow> x = l"
  using assms by (simp add: field_simps)

lemma identity_bounds:
  assumes "motif \<noteq> []"
  shows "0 \<le> identity (scored_dict genome motif idx) \<and> identity (scored_dict genome motif idx) \<le> 100"
proof -
  let ?m = "matches (scored_dict genome motif idx)"
  have pos: "0 < real (length motif)" using assms by simp
  have m: "0 \<le> real_of_int ?m" "real_of_int ?m \<le> real (length motif)"
    using matches_bounds[of genome motif idx] by (simp, linarith)
  show ?thesis
    unfolding identity_scored_dict using percent_bounds[OF pos m] .
qed

lemma identity_100_iff_matches:
  assumes "motif \<noteq> []"
  shows "identity (scored_dict genome motif idx) = 100 \<longleftrightarrow>
         matches (scored_dict genome motif idx) = int (length motif)"
proof -
  let ?m = "matches (scored_dict genome motif idx)"
  have pos: "0 < real (length motif)" using assms by simp
  have "identity (scored_dict genome motif idx) = 100 \<longleftrightarrow> real_of_int ?m = real (length motif)"
    unfolding identity_scored_dict using percent_full_iff[OF pos] .
  also have "\<dots> \<longleftrightarrow> ?m = int (length motif)"
    by linarith
  finally show ?thesis .
qed

lemma matches_full_iff_window:
  assumes "idx + length motif \<le> length genome"
  shows "matches (scored_dict genome motif idx) = int (length motif) \<longleftrightarrow>
         slice genome idx (idx + length motif) = motif"
  using matches_eq_length_iff[OF length_slice[OF assms]]
  by (simp add: matches_scored_dict)

section \<open>Ranking of the hits\<close>

lemma set_sort_reverse: "set (sort_reverse k xs) = set xs"
  by (simp add: sort_reverse_def)

lemma distinct_map_outer:
  assumes "distinct (map (\<lambda>x. f (k x)) xs)"
  shows "distinct (map k xs)"
  using assms by (induction xs) auto

lemma sort_reverse_strict:
  assumes "distinct (map k xs)"
  shows "sorted_wrt (\<lambda>a b. k b < k a) (sort_reverse k xs)"
proof -
  let ?ys = "sort_key k (rev xs)"
  from assms have "distinct xs" and "inj_on k (set xs)"
    by (simp_all add: distinct_map)
  then have "distinct (map k ?ys)"
    by (simp add: distinct_map)
  moreover have "sorted (map k ?ys)"
    by (rule sorted_sort_key)
  ultimately have "sorted_wrt (<) (map k ?ys)"
    by (simp add: strict_sorted_iff)
  then have "sorted_wrt (\<lambda>a b. k a < k b) ?ys"
    by (simp add: sorted_wrt_map)
  then show ?thesis
    by (simp add: sort_reverse_def sorted_wrt_rev)
qed

lemma key_less_ranked:
  assumes "sort_key_of b < sort_key_of a"
  shows "ranked_before a b"
  using assms
  by (auto simp: sort_key_of_def ranked_before_def less_prod_def less_eq_prod_def)

lemma distinct_index_scored:
  assumes "distinct xs"
  shows "distinct (map index (map (scored_dict genome motif) xs))"
  using assms by (simp add: distinct_map inj_on_def o_def)

lemma distinct_index_threshold_hits:
  "distinct (map index (threshold_hits genome motif tv))"
  unfolding threshold_hits_def
  by (rule distinct_map_filter, rule distinct_index_scored, rule distinct_upt)

lemma distinct_keys_threshold_hits:
  "distinct (map sort_key_of (threshold_hits genome motif tv))"
proof -
  have "distinct (map (\<lambda>d. - snd (snd (sort_key_of d))) (threshold_hits genome motif tv))"
    using distinct_index_threshold_hits[of genome motif tv] by (simp add: sort_key_of_def)
  then show ?thesis by (rule distinct_map_outer)
qed

text \<open>
  Claim C1. Whenever \<^verbatim>\<open>blast_search\<close> returns (which needs a numeric threshold), its list
  \<^verbatim>\<open>hits\<close> holds exactly the scored windows whose identity meets the threshold, each
  once, and is ranked: of any two hits the earlier one has the higher identity, or the
  same identity and the higher score, or the same identity and score and the lower index;
  and \<^verbatim>\<open>top_hit\<close> is the first element of that list, or \<^verbatim>\<open>None\<close> when no window meets
  the threshold.
\<close>

theorem hits_ranking:
  assumes "blast_search genome0 motif0 thr = Inr r"
  shows "sorted_wrt ranked_before (hits r) \<and>
         top_hit r = (case hits r of [] \<Rightarrow> None | h # _ \<Rightarrow> Some h) \<and>
         thr = Numeric (threshold r) \<and>
         all_windows r =
           map (scored_dict (upper (strip genome0)) (upper (strip motif0)))
             [0 ..< length (upper (strip genome0)) - length (upper (strip motif0)) + 1] \<and>
         set (hits r) = {d \<in> set (all_windows r). float_ge (identity d) (threshold r)} \<and>
         distinct (hits r) \<and>
         hit_count r = length (hits r) \<and>
         (top_hit r = None \<longleftrightarrow>
            {d \<in> set (all_windows r). float_ge (identity d) (threshold r)} = {})"
proof -
  let ?g = "upper (strip genome0)" and ?m = "upper (strip motif0)"
  from blast_search_Inr[OF assms]
  have h: "hits r = sort_reverse sort_key_of (threshold_hits ?g ?m (threshold r))"
    and t: "top_hit r = (case hits r of [] \<Rightarrow> None | h # _ \<Rightarrow> Some h)"
    and n: "thr = Numeric (threshold r)"
    and aw: "all_windows r = map (scored_dict ?g ?m) [0 ..< length ?g - length ?m + 1]"
    and c: "hit_count r = length (hits r)"
    by simp_all
  have "sorted_wrt (\<lambda>a b. sort_key_of b < sort_key_of a) (hits r)"
    unfolding h by (rule sort_reverse_strict[OF distinct_keys_threshold_hits])
  then have ranked: "sorted_wrt ranked_before (hits r)"
    by (rule sorted_wrt_mono_rel[rotated]) (simp add: key_less_ranked)
  have pass: "threshold_hits ?g ?m (threshold r) =
                filter (\<lambda>d. float_ge (identity d) (threshold r)) (all_windows r)"
    unfolding aw threshold_hits_def ..
  have members: "set (hits r) = {d \<in> set (all_windows r). float_ge (identity d) (threshold r)}"
    unfolding h set_sort_reverse pass by (rule set_filter)
  have "distinct (threshold_hits ?g ?m (threshold r))"
    using distinct_index_threshold_hits[of ?g ?m "threshold r"] by (simp add: distinct_map)
  then have once: "distinct (hits r)"
    unfolding h by (simp add: sort_reverse_def)
  have "top_hit r = None \<longleftrightarrow> hits r = []"
    unfolding t by (cases "hits r") simp_all
  also have "\<dots> \<longleftrightarrow> set (hits r) = {}"
    by simp
  finally have none: "top_hit r = None \<longleftrightarrow>
      {d \<in> set (all_windows r). float_ge (identity d) (threshold r)} = {}"
    unfolding members .
  from ranked t n aw members once c none show ?thesis
    by blast
qed

theorem hits_ranking_witness:
  "blast_search ''CACA'' ''CA'' (Numeric (Finite 100)) =
     Inr \<lparr> threshold = Finite 100, genome_length = 4, motif_length = 2, hit_count = 2,
           hits = [\<lparr> index = 0, window = ''CA'', identity = 100, matches = 2, score = 4,
                     is_perfect = True \<rparr>,
                   \<lparr> index = 2, window = ''CA'', identity = 100, matches = 2, score = 4,
                     is_perfect = True \<rparr>],
           top_hit = Some \<lparr> index = 0, window = ''CA'', identity = 100, matches = 2,
                            score = 4, is_perfect = True \<rparr>,
           all_windows =
                  [\<lparr> index = 0, window = ''CA'', identity = 100, matches = 2, score = 4,
                     is_perfect = True \<rparr>,
                   \<lparr> index = 1, window = ''AC'', identity = 0, matches = 0, score = - 2,
                     is_perfect = False \<rparr>,
                   \<lparr> index = 2, window = ''CA'', identity = 100, matches = 2, score = 4,
                     is_perfect = True \<rparr>] \<rparr> \<and>
   sorted_wrt ranked_before
     [\<lparr> index = 0, window = ''CA'', identity = 100, matches = 2, score = 4, is_perfect = True \<rparr>,
      \<lparr> index = 2, window = ''CA'', identity = 100, matches = 2, score = 4, is_perfect = True \<rparr>]"
  (is "?run = Inr ?r \<and> _")
proof -
  have run: "?run = Inr ?r"
    by code_simp
  from hits_ranking[OF run] have "sorted_wrt ranked_before (hits ?r)"
    by (rule conjunct1)
  with run show ?thesis
    by simp
qed

lemma matches_card:
  "length (filter (\<lambda>(a, b). a = b) (zip w motif)) =
     card {j. j < length w \<and> j < length motif \<and> w ! j = motif ! j}"
proof -
  have "{i. i < length (zip w motif) \<and> (\<lambda>(a, b). a = b) (zip w motif ! i)} =
        {j. j < length w \<and> j < length motif \<and> w ! j = motif ! j}"
    by auto
  then show ?thesis
    by (simp only: length_filter_conv_card)
qed

text \<open>
  Claim C8. Every window that \<^verbatim>\<open>blast_search\<close> scores is a slice of the normalised
  genome as long as the normalised motif, and \<open>matches\<close> is the number of positions at
  which the window and the motif agree. The identity is \<open>matches / len(motif) * 100\<close>
  and lies between 0 and 100, the score is \<open>matches * 2 + (len(motif) - matches) * (-1)\<close>,
  \<^verbatim>\<open>is_perfect\<close> holds exactly when \<open>matches\<close> is the length of the motif, and the
  identity is 100 exactly when the window is the (normalised) motif.
\<close>

theorem scored_window_fields:
  assumes "blast_search genome0 motif0 thr = Inr r" and "d \<in> set (all_windows r)"
  shows "identity d = real_of_int (matches d) / real (motif_length r) * 100 \<and>
         0 \<le> identity d \<and> identity d \<le> 100 \<and>
         score d = matches d * 2 + (int (motif_length r) - matches d) * (- 1) \<and>
         (is_perfect d \<longleftrightarrow> matches d = int (motif_length r)) \<and>
         (identity d = 100 \<longleftrightarrow> window d = upper (strip motif0)) \<and>
         motif_length r = length (upper (strip motif0)) \<and>
         0 < motif_length r \<and>
         0 \<le> index d \<and>
         nat (index d) + motif_length r \<le> length (upper (strip genome0)) \<and>
         window d = slice (upper (strip genome0)) (nat (index d)) (nat (index d) + motif_length r) \<and>
         length (window d) = motif_length r \<and>
         matches d = int (length (filter (\<lambda>(a, b). a = b) (zip (window d) (upper (strip motif0))))) \<and>
         matches d = int (card {j. j < motif_length r \<and> window d ! j = upper (strip motif0) ! j})"
proof -
  let ?g = "upper (strip genome0)" and ?m = "upper (strip motif0)"
  from blast_search_Inr[OF assms(1)]
  have m: "?m \<noteq> []" and len: "length ?m \<le> length ?g"
    and ml: "motif_length r = length ?m"
    and aw: "all_windows r = map (scored_dict ?g ?m) [0 ..< length ?g - length ?m + 1]"
    by simp_all
  from assms(2) have "d \<in> scored_dict ?g ?m ` set [0 ..< length ?g - length ?m + 1]"
    unfolding aw by (simp only: set_map)
  then obtain idx where mem: "idx \<in> set [0 ..< length ?g - length ?m + 1]"
    and d: "d = scored_dict ?g ?m idx"
    by blast
  from mem have idx: "idx < length ?g - length ?m + 1"
    by (simp del: upt_Suc)
  from idx len have fit: "idx + length ?m \<le> length ?g"
    by simp
  have perfect: "is_perfect d \<longleftrightarrow> matches d = int (length ?m)"
    unfolding d by (simp add: is_perfect_scored_dict length_slice[OF fit])
  have full: "identity d = 100 \<longleftrightarrow> window d = ?m"
    unfolding d using identity_100_iff_matches[OF m, of ?g idx] matches_full_iff_window[OF fit]
    by simp
  have ident: "identity d = real_of_int (matches d) / real (length ?m) * 100"
    unfolding d by (rule identity_scored_dict)
  have sc: "score d = matches d * 2 + (int (length ?m) - matches d) * (- 1)"
    unfolding d by (rule score_scored_dict)
  have bounds: "0 \<le> identity d \<and> identity d \<le> 100"
    unfolding d by (rule identity_bounds[OF m])
  have pos: "0 < length ?m"
    using m by simp
  have i: "index d = int idx"
    unfolding d by simp
  then have nonneg: "0 \<le> index d" and ni: "nat (index d) = idx"
    by simp_all
  have fit': "nat (index d) + length ?m \<le> length ?g"
    unfolding ni by (rule fit)
  have w: "window d = slice ?g (nat (index d)) (nat (index d) + length ?m)"
    unfolding ni unfolding d by simp
  have wl: "length (window d) = length ?m"
    unfolding w by (rule length_slice[OF fit'])
  have cnt: "matches d = int (length (filter (\<lambda>(a, b). a = b) (zip (window d) ?m)))"
    unfolding d by (simp add: matches_scored_dict)
  have "{j. j < length (window d) \<and> j < length ?m \<and> window d ! j = ?m ! j} =
        {j. j < length ?m \<and> window d ! j = ?m ! j}"
    unfolding wl by blast
  then have crd: "matches d = int (card {j. j < length ?m \<and> window d ! j = ?m ! j})"
    unfolding cnt matches_card by simp
  show ?thesis
    unfolding ml
    using ident sc bounds perfect full pos nonneg fit' w wl cnt crd by blast
qed

theorem scored_window_fields_witness:
  "blast_search ''ACG'' '' cg'' (Numeric (Finite 0)) =
     Inr \<lparr> threshold = Finite 0, genome_length = 3, motif_length = 2, hit_count = 2,
           hits = [\<lparr> index = 1, window = ''CG'', identity = 100, matches = 2, score = 4,
                     is_perfect = True \<rparr>,
                   \<lparr> index = 0, window = ''AC'', identity = 0, matches = 0, score = - 2,
                     is_perfect = False \<rparr>],
           top_hit = Some \<lparr> index = 1, window = ''CG'', identity = 100, matches = 2,
                            score = 4, is_perfect = True \<rparr>,
           all_windows =
                  [\<lparr> index = 0, window = ''AC'', identity = 0, matches = 0, score = - 2,
                     is_perfect = False \<rparr>,
                   \<lparr> index = 1, window = ''CG'', identity = 100, matches = 2, score = 4,
                     is_perfect = True \<rparr>] \<rparr> \<and>
   ''CG'' = upper (strip '' cg'')"
  (is "?run = Inr ?r \<and> _")
proof -
  let ?d = "\<lparr> index = 1, window = ''CG'', identity = 100, matches = 2, score = 4,
              is_perfect = True \<rparr>"
  have run: "?run = Inr ?r"
    by code_simp
  have d: "?d \<in> set (all_windows ?r)"
    by simp
  from scored_window_fields[OF run d]
  have "identity ?d = 100 \<longleftrightarrow> window ?d = upper (strip '' cg'')"
    by blast
  with run show ?thesis
    by simp
qed

section \<open>The diagnostic message\<close>

lemma messages_distinct:
  "msg_full_agreement \<noteq> msg_partial_agreement" "msg_full_agreement \<noteq> msg_only_grover"
  "msg_full_agreement \<noteq> msg_only_blast" "msg_full_agreement \<noteq> msg_neither"
  "msg_partial_agreement \<noteq> msg_only_grover" "msg_partial_agreement \<noteq> msg_only_blast"
  "msg_partial_agreement \<noteq> msg_neither" "msg_only_grover \<noteq> msg_only_blast"
  "msg_only_grover \<noteq> msg_neither" "msg_only_blast \<noteq> msg_neither"
  by (simp_all add: msg_full_agreement_def msg_partial_agreement_def msg_only_grover_def
        msg_only_blast_def msg_neither_def)

text \<open>
  Claim C7. The message is chosen by five cases tried in order: overlap with nothing
  exclusive, any overlap, only the first list exclusive, only the second list exclusive,
  and otherwise; the five messages differ, so each message identifies its case.
\<close>

theorem message_priority_chain:
  "build_analysis_message ov a b =
     (if ov \<noteq> [] \<and> a = [] \<and> b = [] then msg_full_agreement
      else if ov \<noteq> [] then msg_partial_agreement
      else if a \<noteq> [] \<and> b = [] then msg_only_grover
      else if b \<noteq> [] \<and> a = [] then msg_only_blast
      else msg_neither) \<and>
   (build_analysis_message ov a b = msg_full_agreement \<longleftrightarrow> ov \<noteq> [] \<and> a = [] \<and> b = []) \<and>
   (build_analysis_message ov a b = msg_partial_agreement \<longleftrightarrow> ov \<noteq> [] \<and> (a \<noteq> [] \<or> b \<noteq> [])) \<and>
   (build_analysis_message ov a b = msg_only_grover \<longleftrightarrow> ov = [] \<and> a \<noteq> [] \<and> b = []) \<and>
   (build_analysis_message ov a b = msg_only_blast \<longleftrightarrow> ov = [] \<and> b \<noteq> [] \<and> a = []) \<and>
   (build_analysis_message ov a b = msg_neither \<longleftrightarrow>
      ov = [] \<and> ((a \<noteq> [] \<and> b \<noteq> []) \<or> (a = [] \<and> b = [])))"
  using messages_distinct messages_distinct[symmetric]
  by (auto simp: build_analysis_message_def)

theorem message_priority_chain_witness:
  "build_analysis_message [0] [10] [] = msg_partial_agreement \<and>
   build_analysis_message [] [3] [4] = msg_neither"
  using message_priority_chain[of "[0]" "[10]" "[]"] message_priority_chain[of "[]" "[3]" "[4]"]
  by simp

section \<open>Agreement analysis\<close>

lemma analyse_eq:
  "analyse a b =
     Inr \<lparr> overlap_indices = sorted_list_of_set (set a \<inter> set b),
           grover_only = sorted_list_of_set (set a - set b),
           blast_only = sorted_list_of_set (set b - set a),
           agreement_ratio = jaccard (set a) (set b),
           message = build_analysis_message (sorted_list_of_set (set a \<inter> set b))
                       (sorted_list_of_set (set a - set b)) (sorted_list_of_set (set b - set a)) \<rparr>"
proof (cases "set a \<union> set b = {}")
  case True
  then show ?thesis
    by (simp add: analyse_def jaccard_def)
next
  case False
  then have "card (set a \<union> set b) \<noteq> 0"
    by simp
  with False show ?thesis
    by (simp add: analyse_def jaccard_def py_truediv_def Let_def)
qed

lemma jaccard_bounds:
  assumes "finite A" "finite B"
  shows "0 \<le> jaccard A B \<and> jaccard A B \<le> 1"
proof (cases "A \<union> B = {}")
  case True
  then show ?thesis by (simp add: jaccard_def)
next
  case False
  have "card (A \<inter> B) \<le> card (A \<union> B)"
    using assms by (intro card_mono) auto
  moreover have "0 < card (A \<union> B)"
    using assms False by (simp add: card_gt_0_iff)
  ultimately show ?thesis
    using False by (simp add: jaccard_def divide_le_eq_1)
qed

lemma jaccard_zero_iff:
  assumes "finite A" "finite B"
  shows "jaccard A B = 0 \<longleftrightarrow> A \<inter> B = {}"
proof (cases "A \<union> B = {}")
  case True
  then show ?thesis by (auto simp: jaccard_def)
next
  case False
  then have "card (A \<union> B) \<noteq> 0"
    using assms by simp
  with False assms show ?thesis
    by (auto simp: jaccard_def)
qed

lemma jaccard_one_iff:
  assumes "finite A" "finite B"
  shows "jaccard A B = 1 \<longleftrightarrow> A = B \<and> A \<noteq> {}"
proof (cases "A \<union> B = {}")
  case True
  then show ?thesis by (auto simp: jaccard_def)
next
  case False
  then have pos: "card (A \<union> B) \<noteq> 0"
    using assms by simp
  have "jaccard A B = 1 \<longleftrightarrow> card (A \<inter> B) = card (A \<union> B)"
    using False pos by (auto simp: jaccard_def)
  also have "\<dots> \<longleftrightarrow> A \<inter> B = A \<union> B"
  proof
    assume "card (A \<inter> B) = card (A \<union> B)"
    then show "A \<inter> B = A \<union> B"
      using assms by (intro card_subset_eq) auto
  qed simp
  also have "\<dots> \<longleftrightarrow> A = B"
    by blast
  finally show ?thesis
    using False by auto
qed

text \<open>
  Claim C6. The agreement ratio is the size of the intersection over the size of the
  union, 0 when the union is empty; it lies between 0 and 1, is 0 exactly when the
  intersection is empty and 1 exactly when the two sets are equal and not empty. On
  \<open>{0, 10}\<close> and \<open>{0}\<close> the report is overlap \<open>[0]\<close>, first-only \<open>[10]\<close>, second-only
  \<open>[]\<close> and ratio one half.
\<close>

theorem agreement_ratio_jaccard:
  "(\<exists>r. analyse a b = Inr r \<and>
        agreement_ratio r =
          (if set a \<union> set b = {} then 0
           else real (card (set a \<inter> set b)) / real (card (set a \<union> set b))) \<and>
        0 \<le> agreement_ratio r \<and> agreement_ratio r \<le> 1 \<and>
        (agreement_ratio r = 0 \<longleftrightarrow> set a \<inter> set b = {}) \<and>
        (agreement_ratio r = 1 \<longleftrightarrow> set a = set b \<and> set a \<noteq> {})) \<and>
   analyse [0, 10] [0] =
     Inr \<lparr> overlap_indices = [0], grover_only = [10], blast_only = [],
           agreement_ratio = 1 / 2, message = msg_partial_agreement \<rparr>"
proof -
  have scenario: "analyse [0, 10] [0] =
     Inr \<lparr> overlap_indices = [0], grover_only = [10], blast_only = [],
           agreement_ratio = 1 / 2, message = msg_partial_agreement \<rparr>"
    by code_simp
  have fin: "finite (set a)" "finite (set b)"
    by simp_all
  have "agreement_ratio (projr (analyse a b)) = jaccard (set a) (set b)"
    by (simp add: analyse_eq)
  then have general: "\<exists>r. analyse a b = Inr r \<and>
        agreement_ratio r =
          (if set a \<union> set b = {} then 0
           else real (card (set a \<inter> set b)) / real (card (set a \<union> set b))) \<and>
        0 \<le> agreement_ratio r \<and> agreement_ratio r \<le> 1 \<and>
        (agreement_ratio r = 0 \<longleftrightarrow> set a \<inter> set b = {}) \<and>
        (agreement_ratio r = 1 \<longleftrightarrow> set a = set b \<and> set a \<noteq> {})"
    using jaccard_bounds[OF fin] jaccard_zero_iff[OF fin] jaccard_one_iff[OF fin]
    by (simp add: analyse_eq) (simp add: jaccard_def)
  from general scenario show ?thesis
    by (rule conjI)
qed

theorem agreement_ratio_jaccard_witness:
  "analyse [1, 2, 2] [2, 1] =
     Inr \<lparr> overlap_indices = [1, 2], grover_only = [], blast_only = [],
           agreement_ratio = 1, message = msg_full_agreement \<rparr> \<and>
   analyse [3] [4] =
     Inr \<lparr> overlap_indices = [], grover_only = [3], blast_only = [4],
           agreement_ratio = 0, message = msg_neither \<rparr>"
proof -
  have eq: "set [1, 2, 2 :: int] = set [2, 1]" and ne: "set [1, 2, 2 :: int] \<noteq> {}"
    and disj: "set [3 :: int] \<inter> set [4] = {}"
    by auto
  have one: "agreement_ratio (projr (analyse [1, 2, 2] [2, 1])) = 1"
    using agreement_ratio_jaccard[of "[1, 2, 2]" "[2, 1]"] eq ne by auto
  have zero: "agreement_ratio (projr (analyse [3] [4])) = 0"
    using agreement_ratio_jaccard[of "[3]" "[4]"] disj by auto
  have "analyse [1, 2, 2] [2, 1] =
     Inr \<lparr> overlap_indices = [1, 2], grover_only = [], blast_only = [],
           agreement_ratio = agreement_ratio (projr (analyse [1, 2, 2] [2, 1])),
           message = msg_full_agreement \<rparr>"
    by code_simp
  moreover have "analyse [3] [4] =
     Inr \<lparr> overlap_indices = [], grover_only = [3], blast_only = [4],
           agreement_ratio = agreement_ratio (projr (analyse [3] [4])), message = msg_neither \<rparr>"
    by code_simp
  ultimately show ?thesis
    using one zero by simp
qed

text \<open>
  Claim C2, counterexample. \<^verbatim>\<open>compare_methods\<close> first calls \<^verbatim>\<open>blast_search\<close> and so
  raises on a motif longer than the genome, on a threshold that is not numeric and on
  an empty genome.
\<close>

theorem compare_methods_raises:
  "compare_methods ''A'' ''AA''
     \<lparr> gr_accuracy = Some 1, gr_good_indices = Some [0], gr_total_windows = Some 1 \<rparr>
     (Numeric (Finite 70)) =
     Inl (ValueError ''Motif precisa ser menor ou igual ao genoma.'') \<and>
   compare_methods ''A'' ''A''
     \<lparr> gr_accuracy = Some 1, gr_good_indices = Some [0], gr_total_windows = Some 1 \<rparr>
     NonNumeric =
     Inl (ValueError ''Threshold deve ser numerico.'') \<and>
   compare_methods '' '' ''A''
     \<lparr> gr_accuracy = Some 1, gr_good_indices = Some [0], gr_total_windows = Some 1 \<rparr>
     (Numeric (Finite 70)) =
     Inl (ValueError ''Genoma nao pode ser vazio'')"
  by code_simp

text \<open>
  Claim C2, as amended. \<^verbatim>\<open>compare_methods\<close> raises exactly when its call of
  \<^verbatim>\<open>blast_search\<close> raises, with the same exception. Whenever \<^verbatim>\<open>blast_search\<close> returns,
  \<^verbatim>\<open>compare_methods\<close> returns, passing that result on, and its analysis is determined by
  the set of the given good indices and the set of the indices of the hits: the sorted
  intersection, the two sorted differences, the ratio of the sizes of intersection and
  union (0 for an empty union) and the message for these three lists.
\<close>

theorem compare_methods_fails_only_in_blast_search:
  "(compare_methods genome motif gr thr = Inl e \<longleftrightarrow> blast_search genome motif thr = Inl e) \<and>
   (blast_search genome motif thr = Inr b \<longrightarrow>
      (\<exists>c. compare_methods genome motif gr thr = Inr c \<and>
           blast c = b \<and>
           gs_good_indices (grover c) = get_good_indices gr \<and>
           gs_accuracy (grover c) = gr_accuracy gr \<and>
           gs_total_windows (grover c) = gr_total_windows gr \<and>
           analysis c =
             \<lparr> overlap_indices =
                 sorted_list_of_set (set (get_good_indices gr) \<inter> index ` set (hits b)),
               grover_only =
                 sorted_list_of_set (set (get_good_indices gr) - index ` set (hits b)),
               blast_only =
                 sorted_list_of_set (index ` set (hits b) - set (get_good_indices gr)),
               agreement_ratio = jaccard (set (get_good_indices gr)) (index ` set (hits b)),
               message =
                 build_analysis_message
                   (sorted_list_of_set (set (get_good_indices gr) \<inter> index ` set (hits b)))
                   (sorted_list_of_set (set (get_good_indices gr) - index ` set (hits b)))
                   (sorted_list_of_set (index ` set (hits b) - set (get_good_indices gr))) \<rparr>))"
proof -
  have fails: "compare_methods genome motif gr thr = Inl e \<longleftrightarrow> blast_search genome motif thr = Inl e"
    by (cases "blast_search genome motif thr") (simp_all add: compare_methods_def analyse_eq Let_def)
  have returns: "\<exists>c. compare_methods genome motif gr thr = Inr c \<and>
           blast c = b \<and>
           gs_good_indices (grover c) = get_good_indices gr \<and>
           gs_accuracy (grover c) = gr_accuracy gr \<and>
           gs_total_windows (grover c) = gr_total_windows gr \<and>
           analysis c =
             \<lparr> overlap_indices =
                 sorted_list_of_set (set (get_good_indices gr) \<inter> index ` set (hits b)),
               grover_only =
                 sorted_list_of_set (set (get_good_indices gr) - index ` set (hits b)),
               blast_only =
                 sorted_list_of_set (index ` set (hits b) - set (get_good_indices gr)),
               agreement_ratio = jaccard (set (get_good_indices gr)) (index ` set (hits b)),
               message =
                 build_analysis_message
                   (sorted_list_of_set (set (get_good_indices gr) \<inter> index ` set (hits b)))
                   (sorted_list_of_set (set (get_good_indices gr) - index ` set (hits b)))
                   (sorted_list_of_set (index ` set (hits b) - set (get_good_indices gr))) \<rparr>"
    if "blast_search genome motif thr = Inr b"
    using that by (simp add: compare_methods_def analyse_eq Let_def)
  from fails returns show ?thesis
    by blast
qed

theorem compare_methods_fails_only_in_blast_search_witness:
  "blast_search ''CG'' ''CG'' (Numeric (Finite 70)) =
     Inr \<lparr> threshold = Finite 70, genome_length = 2, motif_length = 2, hit_count = 1,
           hits = [\<lparr> index = 0, window = ''CG'', identity = 100, matches = 2, score = 4,
                     is_perfect = True \<rparr>],
           top_hit = Some \<lparr> index = 0, window = ''CG'', identity = 100, matches = 2,
                            score = 4, is_perfect = True \<rparr>,
           all_windows =
                  [\<lparr> index = 0, window = ''CG'', identity = 100, matches = 2, score = 4,
                     is_perfect = True \<rparr>] \<rparr> \<and>
   (\<exists>c. compare_methods ''CG'' ''CG''
          \<lparr> gr_accuracy = Some 1, gr_good_indices = Some [0], gr_total_windows = Some 1 \<rparr>
          (Numeric (Finite 70)) = Inr c \<and>
        gs_good_indices (grover c) = [0] \<and>
        hit_count (blast c) = 1)"
  (is "?run = Inr ?r \<and> _")
proof -
  let ?gr = "\<lparr> gr_accuracy = Some 1, gr_good_indices = Some [0 :: int],
               gr_total_windows = Some 1 \<rparr>"
  have run: "?run = Inr ?r"
    by code_simp
  have good: "get_good_indices ?gr = [0]"
    by (simp add: get_good_indices_def)
  from compare_methods_fails_only_in_blast_search[of "''CG''" "''CG''" ?gr "Numeric (Finite 70)" _ ?r]
    run
  obtain c where "compare_methods ''CG'' ''CG'' ?gr (Numeric (Finite 70)) = Inr c"
    and "blast c = ?r" and "gs_good_indices (grover c) = get_good_indices ?gr"
    by blast
  with run good show ?thesis
    by simp
qed

section \<open>Window enumeration and exact hits\<close>

lemma enumerate_map_upt:
  "enumerate 0 (map f [0 ..< n]) = map (\<lambda>i. (i, f i)) [0 ..< n]"
  by (simp add: enumerate_eq_zip zip_map2 zip_same_conv_map o_def)

lemma classical_windows:
  "fst (classical_find_occurrences genome motif) =
     map (\<lambda>i. slice genome i (i + length motif))
       [0 ..< nat (int (length genome) - int (length motif) + 1)]"
  by (simp add: classical_find_occurrences_def Let_def)

lemma classical_good:
  "snd (classical_find_occurrences genome motif) =
     filter (\<lambda>i. slice genome i (i + length motif) = motif)
       [0 ..< nat (int (length genome) - int (length motif) + 1)]"
  by (simp add: classical_find_occurrences_def Let_def enumerate_map_upt filter_map o_def
        del: upt_Suc)

lemma window_range:
  assumes "length motif \<le> length genome"
  shows "nat (int (length genome) - int (length motif) + 1) = length genome - length motif + 1"
  using assms by linarith

lemma set_threshold_hits:
  "set (threshold_hits genome motif tv) =
     {scored_dict genome motif i | i.
        i < length genome - length motif + 1 \<and>
        float_ge (identity (scored_dict genome motif i)) tv}"
  unfolding threshold_hits_def by (auto simp del: upt_Suc)

lemma hits_set:
  assumes "blast_search genome0 motif0 thr = Inr r"
  shows "set (hits r) =
           set (threshold_hits (upper (strip genome0)) (upper (strip motif0)) (threshold r))"
  using blast_search_Inr[OF assms] by (simp add: set_sort_reverse)

lemma exact_window_is_hit:
  assumes "motif \<noteq> []" and "i + length motif \<le> length genome"
    and "slice genome i (i + length motif) = motif" and "t \<le> 100"
  shows "scored_dict genome motif i \<in> set (threshold_hits genome motif (Finite t))"
proof -
  have "matches (scored_dict genome motif i) = int (length motif)"
    using matches_full_iff_window[OF assms(2)] assms(3) by simp
  then have "identity (scored_dict genome motif i) = 100"
    using identity_100_iff_matches[OF assms(1)] by simp
  moreover have "i < length genome - length motif + 1"
    using assms(2) by linarith
  ultimately show ?thesis
    using assms(4) unfolding set_threshold_hits by auto
qed

lemma threshold_hits_antitone:
  assumes "t1 \<le> t2"
  shows "set (threshold_hits genome motif (Finite t2)) \<subseteq> set (threshold_hits genome motif (Finite t1))"
  using assms unfolding set_threshold_hits by auto

text \<open>
  Claim C5. When the motif is no longer than the genome, \<^verbatim>\<open>classical_find_occurrences\<close>
  lists \<open>len(genome) - len(motif) + 1\<close> windows, the window at position \<open>i\<close> being the
  slice that starts at \<open>i\<close>; \<^verbatim>\<open>blast_search\<close> scores as many windows of the normalised
  genome for the normalised motif, whose lengths it reports, with the indices
  \<open>0, 1, \<dots>\<close> in order. For the genome
  \<open>ACGTTACGTAACGTTACGTA\<close> and the motif \<open>ACGTT\<close> there are 16 windows and the exact hits
  are 0 and 10.
\<close>

theorem window_count:
  "(length motif \<le> length genome \<longrightarrow>
      length (fst (classical_find_occurrences genome motif)) = length genome - length motif + 1 \<and>
      (\<forall>i. i \<le> length genome - length motif \<longrightarrow>
           fst (classical_find_occurrences genome motif) ! i = slice genome i (i + length motif) \<and>
           length (fst (classical_find_occurrences genome motif) ! i) = length motif)) \<and>
   (blast_search genome0 motif0 thr = Inr r \<longrightarrow>
      genome_length r = length (upper (strip genome0)) \<and>
      motif_length r = length (upper (strip motif0)) \<and>
      length (all_windows r) =
        length (upper (strip genome0)) - length (upper (strip motif0)) + 1 \<and>
      motif_length r \<le> genome_length r \<and>
      length (all_windows r) = genome_length r - motif_length r + 1 \<and>
      map index (all_windows r) = map int [0 ..< genome_length r - motif_length r + 1] \<and>
      map window (all_windows r) =
        map (\<lambda>i. slice (upper (strip genome0)) i (i + motif_length r))
          [0 ..< genome_length r - motif_length r + 1]) \<and>
   length (fst (classical_find_occurrences ''ACGTTACGTAACGTTACGTA'' ''ACGTT'')) = 16 \<and>
   snd (classical_find_occurrences ''ACGTTACGTAACGTTACGTA'' ''ACGTT'') = [0, 10]"
proof -
  have classical: "length (fst (classical_find_occurrences genome motif)) = length genome - length motif + 1 \<and>
      (\<forall>i. i \<le> length genome - length motif \<longrightarrow>
           fst (classical_find_occurrences genome motif) ! i = slice genome i (i + length motif) \<and>
           length (fst (classical_find_occurrences genome motif) ! i) = length motif)"
    if le: "length motif \<le> length genome"
  proof -
    let ?n = "length genome - length motif + 1"
    have w: "fst (classical_find_occurrences genome motif) =
               map (\<lambda>i. slice genome i (i + length motif)) [0 ..< ?n]"
      unfolding classical_windows window_range[OF le] ..
    have len: "length (fst (classical_find_occurrences genome motif)) = ?n"
      unfolding w by (simp del: upt_Suc)
    have nth: "fst (classical_find_occurrences genome motif) ! i = slice genome i (i + length motif) \<and>
               length (fst (classical_find_occurrences genome motif) ! i) = length motif"
      if "i \<le> length genome - length motif" for i
    proof -
      from that have lt: "i < ?n" by simp
      from that le have fit: "i + length motif \<le> length genome" by linarith
      have "fst (classical_find_occurrences genome motif) ! i = slice genome i (i + length motif)"
        unfolding w using lt by (simp del: upt_Suc)
      then show ?thesis
        using length_slice[OF fit] by simp
    qed
    from len nth show ?thesis by blast
  qed
  have blast: "genome_length r = length (upper (strip genome0)) \<and>
      motif_length r = length (upper (strip motif0)) \<and>
      length (all_windows r) =
        length (upper (strip genome0)) - length (upper (strip motif0)) + 1 \<and>
      motif_length r \<le> genome_length r \<and>
      length (all_windows r) = genome_length r - motif_length r + 1 \<and>
      map index (all_windows r) = map int [0 ..< genome_length r - motif_length r + 1] \<and>
      map window (all_windows r) =
        map (\<lambda>i. slice (upper (strip genome0)) i (i + motif_length r))
          [0 ..< genome_length r - motif_length r + 1]"
    if run: "blast_search genome0 motif0 thr = Inr r"
    using blast_search_Inr[OF run] by (simp add: o_def del: upt_Suc)
  have count: "length (fst (classical_find_occurrences ''ACGTTACGTAACGTTACGTA'' ''ACGTT'')) = 16"
    by code_simp
  have good: "snd (classical_find_occurrences ''ACGTTACGTAACGTTACGTA'' ''ACGTT'') = [0, 10]"
    by code_simp
  from classical blast count good show ?thesis
    by blast
qed

theorem window_count_witness:
  "length ''CG'' \<le> length ''ACGT'' \<and>
   length (fst (classical_find_occurrences ''ACGT'' ''CG'')) = length ''ACGT'' - length ''CG'' + 1 \<and>
   fst (classical_find_occurrences ''ACGT'' ''CG'') ! 2 = slice ''ACGT'' 2 (2 + length ''CG'') \<and>
   blast_search ''ACG'' '' cg'' (Numeric (Finite 0)) =
     Inr \<lparr> threshold = Finite 0, genome_length = 3, motif_length = 2, hit_count = 2,
           hits = [\<lparr> index = 1, window = ''CG'', identity = 100, matches = 2, score = 4,
                     is_perfect = True \<rparr>,
                   \<lparr> index = 0, window = ''AC'', identity = 0, matches = 0, score = - 2,
                     is_perfect = False \<rparr>],
           top_hit = Some \<lparr> index = 1, window = ''CG'', identity = 100, matches = 2,
                            score = 4, is_perfect = True \<rparr>,
           all_windows =
                  [\<lparr> index = 0, window = ''AC'', identity = 0, matches = 0, score = - 2,
                     is_perfect = False \<rparr>,
                   \<lparr> index = 1, window = ''CG'', identity = 100, matches = 2, score = 4,
                     is_perfect = True \<rparr>] \<rparr>"
  (is "?le \<and> ?count \<and> ?nth \<and> ?run = Inr ?r")
proof -
  have le: ?le by simp
  have i: "(2::nat) \<le> length ''ACGT'' - length ''CG''" by simp
  have run: "?run = Inr ?r" by code_simp
  from window_count[of "''CG''" "''ACGT''" "''ACG''" "'' cg''" "Numeric (Finite 0)" ?r] le i run
  show ?thesis
    by blast
qed

text \<open>
  Claim C10. On a normalised, non-empty genome and motif with the motif no longer than
  the genome and a finite threshold of at most 100, \<^verbatim>\<open>blast_search\<close> returns, and every
  index whose window equals the motif, hence every index that
  \<^verbatim>\<open>classical_find_occurrences\<close> reports, is the index of one of its hits. For any
  inputs, the hits at a higher threshold are among the hits at a lower one.
\<close>

theorem exact_hits_within_threshold_hits:
  "(upper (strip genome) = genome \<and> upper (strip motif) = motif \<and> motif \<noteq> [] \<and>
    length motif \<le> length genome \<and> t \<le> 100 \<longrightarrow>
      (\<exists>r. blast_search genome motif (Numeric (Finite t)) = Inr r \<and>
           (\<forall>i. i \<le> length genome - length motif \<and> slice genome i (i + length motif) = motif
                 \<longrightarrow> int i \<in> index ` set (hits r)) \<and>
           int ` set (snd (classical_find_occurrences genome motif)) \<subseteq> index ` set (hits r))) \<and>
   (t1 \<le> t2 \<and> blast_search genome0 motif0 (Numeric (Finite t1)) = Inr r1 \<and>
    blast_search genome0 motif0 (Numeric (Finite t2)) = Inr r2 \<longrightarrow>
      set (hits r2) \<subseteq> set (hits r1))"
proof -
  have exact: "\<exists>r. blast_search genome motif (Numeric (Finite t)) = Inr r \<and>
           (\<forall>i. i \<le> length genome - length motif \<and> slice genome i (i + length motif) = motif
                 \<longrightarrow> int i \<in> index ` set (hits r)) \<and>
           int ` set (snd (classical_find_occurrences genome motif)) \<subseteq> index ` set (hits r)"
    if g: "upper (strip genome) = genome" and m: "upper (strip motif) = motif"
      and ne: "motif \<noteq> []" and le: "length motif \<le> length genome" and t: "t \<le> 100"
  proof -
    from blast_search_succeeds[OF g m ne le, of "Finite t"]
    obtain r where run: "blast_search genome motif (Numeric (Finite t)) = Inr r"
      and thr: "threshold r = Finite t"
      by blast
    have hs: "set (hits r) = set (threshold_hits genome motif (Finite t))"
      using hits_set[OF run] by (simp add: g m thr)
    have one: "int i \<in> index ` set (hits r)"
      if "i \<le> length genome - length motif" and "slice genome i (i + length motif) = motif" for i
    proof -
      from that(1) le have fit: "i + length motif \<le> length genome" by linarith
      have "scored_dict genome motif i \<in> set (hits r)"
        unfolding hs by (rule exact_window_is_hit[OF ne fit that(2) t])
      then have "index (scored_dict genome motif i) \<in> index ` set (hits r)"
        by (rule imageI)
      then show ?thesis by simp
    qed
    have "int i \<in> index ` set (hits r)"
      if "i \<in> set (snd (classical_find_occurrences genome motif))" for i
    proof -
      from that have "i < length genome - length motif + 1"
        and "slice genome i (i + length motif) = motif"
        unfolding classical_good window_range[OF le] by (simp_all del: upt_Suc)
      then show ?thesis
        using one[of i] by simp
    qed
    then have "int ` set (snd (classical_find_occurrences genome motif)) \<subseteq> index ` set (hits r)"
      by blast
    with run one show ?thesis by blast
  qed
  have anti: "set (hits r2) \<subseteq> set (hits r1)"
    if le: "t1 \<le> t2" and run1: "blast_search genome0 motif0 (Numeric (Finite t1)) = Inr r1"
      and run2: "blast_search genome0 motif0 (Numeric (Finite t2)) = Inr r2"
  proof -
    from blast_search_Inr[OF run1] have t1: "threshold r1 = Finite t1" by simp
    from blast_search_Inr[OF run2] have t2: "threshold r2 = Finite t2" by simp
    show ?thesis
      unfolding hits_set[OF run1] hits_set[OF run2] t1 t2
      by (rule threshold_hits_antitone[OF le])
  qed
  from exact anti show ?thesis
    by blast
qed

theorem exact_hits_within_threshold_hits_witness:
  "upper (strip ''ACGCG'') = ''ACGCG'' \<and> upper (strip ''CG'') = ''CG'' \<and> ''CG'' \<noteq> [] \<and>
   length ''CG'' \<le> length ''ACGCG'' \<and> (70 :: real) \<le> 100 \<and>
   (\<exists>r. blast_search ''ACGCG'' ''CG'' (Numeric (Finite 70)) = Inr r \<and>
        int ` set (snd (classical_find_occurrences ''ACGCG'' ''CG'')) \<subseteq> index ` set (hits r))"
proof -
  have g: "upper (strip ''ACGCG'') = ''ACGCG''" by code_simp
  have m: "upper (strip ''CG'') = ''CG''" by code_simp
  have rest: "''CG'' \<noteq> [] \<and> length ''CG'' \<le> length ''ACGCG'' \<and> (70 :: real) \<le> 100" by simp
  from exact_hits_within_threshold_hits[of "''ACGCG''" "''CG''" 70] g m rest
  show ?thesis
    by blast
qed

section \<open>Repeated trials\<close>

lemma grover_once_absent:
  assumes "snd (classical_find_occurrences genome motif) = []"
  shows "grover_once smp calls genome motif = (Inl NoOccurrence, calls)"
  using assms by (auto simp: grover_once_def Let_def split: prod.splits)

lemma grover_once_present:
  assumes "classical_find_occurrences genome motif = (windows, good)" and "good \<noteq> []"
  shows "grover_once smp calls genome motif =
           (Inr (smp calls good (qubits (length windows)), good, windows), Suc calls)"
  using assms by (simp add: grover_once_def Let_def)

lemma total_shots_incr: "total_shots (counter_incr k counts) = Suc (total_shots counts)"
  by (induction counts) (auto simp: total_shots_def)

lemma run_trials_loop_present:
  assumes "classical_find_occurrences genome motif = (windows, good)" and "good \<noteq> []"
  shows "\<exists>counts' sg.
           run_trials_loop smp genome motif k calls hts counts sample_good =
             (Inr (hts + length (filter (\<lambda>c. smp c good (qubits (length windows)) \<in> set good)
                                   [calls ..< calls + k]),
                   counts', sg),
              calls + k) \<and>
           total_shots counts' = total_shots counts + k \<and>
           (0 < k \<longrightarrow> sg = Some good)"
proof (induction k arbitrary: calls hts counts sample_good)
  case 0
  show ?case by simp
next
  case (Suc k)
  let ?idx = "smp calls good (qubits (length windows))"
  let ?hts = "if ?idx \<in> set good then hts + 1 else hts"
  from Suc.IH[of "Suc calls" ?hts "counter_incr ?idx counts" "Some good"]
  obtain counts' sg where
    loop: "run_trials_loop smp genome motif k (Suc calls) ?hts (counter_incr ?idx counts) (Some good) =
             (Inr (?hts + length (filter (\<lambda>c. smp c good (qubits (length windows)) \<in> set good)
                                    [Suc calls ..< Suc calls + k]),
                   counts', sg),
              Suc calls + k)"
    and shots: "total_shots counts' = total_shots (counter_incr ?idx counts) + k"
    and sg: "0 < k \<longrightarrow> sg = Some good"
    by blast
  have sg': "sg = Some good"
  proof (cases k)
    case 0
    with loop show ?thesis by simp
  next
    case (Suc j)
    with sg show ?thesis by simp
  qed
  have upt: "[calls ..< calls + Suc k] = calls # [Suc calls ..< Suc calls + k]"
    by (simp add: upt_conv_Cons)
  have "run_trials_loop smp genome motif (Suc k) calls hts counts sample_good =
          (Inr (hts + length (filter (\<lambda>c. smp c good (qubits (length windows)) \<in> set good)
                                [calls ..< calls + Suc k]),
                counts', sg),
           calls + Suc k)"
    unfolding upt by (simp add: grover_once_present[OF assms] loop)
  moreover have "total_shots counts' = total_shots counts + Suc k"
    using shots by (simp add: total_shots_incr)
  ultimately show ?case
    using sg' by blast
qed

lemma run_trials_loop_absent:
  assumes "snd (classical_find_occurrences genome motif) = []"
  shows "run_trials_loop smp genome motif (Suc k) calls hts counts sample_good =
           (Inl NoOccurrence, calls)"
  by (simp add: grover_once_absent[OF assms])

text \<open>
  Claim C9. For a trial count of at least one and a motif that occurs, so that the
  sampler is run, \<^verbatim>\<open>run_trials\<close> returns after exactly that many sampler invocations;
  its accuracy is the number of outcomes that lie in the exact hit list divided by the
  trial count, which is between 0 and 1, and the counts add up to the trial count.
\<close>

theorem run_trials_accuracy:
  assumes "1 \<le> T" and "classical_find_occurrences genome motif = (windows, good)"
    and "good \<noteq> []"
  shows "\<exists>acc counts.
           run_trials smp genome motif T = (Inr (acc, counts, Some good), nat T) \<and>
           acc = real (length (filter (\<lambda>i. i \<in> set good) (outcomes smp genome motif (nat T))))
                   / real_of_int T \<and>
           0 \<le> acc \<and> acc \<le> 1 \<and>
           total_shots counts = nat T"
proof -
  let ?hit = "\<lambda>c. smp c good (qubits (length windows)) \<in> set good"
  let ?h = "length (filter ?hit [0 ..< nat T])"
  from run_trials_loop_present[OF assms(2,3), of smp "nat T" 0 0 "[]" None]
  obtain counts sg where
    loop: "run_trials_loop smp genome motif (nat T) 0 0 [] None = (Inr (?h, counts, sg), nat T)"
    and shots: "total_shots counts = nat T"
    and sg: "0 < nat T \<longrightarrow> sg = Some good"
    by (auto simp: total_shots_def)
  from assms(1) sg have sg': "sg = Some good"
    by simp
  from assms(1) have nz: "T \<noteq> 0" and pos: "0 < real_of_int T"
    by simp_all
  have run: "run_trials smp genome motif T =
               (Inr (real_of_int (int ?h) / real_of_int T, counts, Some good), nat T)"
    by (simp add: run_trials_def loop sg' py_truediv_def nz)
  have out: "length (filter (\<lambda>i. i \<in> set good) (outcomes smp genome motif (nat T))) = ?h"
    by (simp add: outcomes_def assms(2) filter_map o_def del: upt_Suc)
  have "?h \<le> length [0 ..< nat T]"
    by (rule length_filter_le)
  then have "?h \<le> nat T"
    by simp
  then have le: "real ?h \<le> real_of_int T"
    using assms(1) by linarith
  have bounds: "0 \<le> real ?h / real_of_int T \<and> real ?h / real_of_int T \<le> 1"
    using le pos by (simp add: divide_le_eq_1)
  show ?thesis
    using run out bounds shots by simp
qed

theorem run_trials_accuracy_witness:
  "(1 :: int) \<le> 3 \<and>
   classical_find_occurrences ''ACA'' ''A'' = ([''A'', ''C'', ''A''], [0, 2]) \<and>
   [0, 2 :: nat] \<noteq> [] \<and>
   run_trials (const_sampler 1) ''ACA'' ''A'' 3 = (Inr (0, [(1, 3)], Some [0, 2]), 3) \<and>
   run_trials (const_sampler 2) ''ACA'' ''A'' 3 = (Inr (1, [(2, 3)], Some [0, 2]), 3)"
proof -
  have t: "(1 :: int) \<le> 3" by simp
  have c: "classical_find_occurrences ''ACA'' ''A'' = ([''A'', ''C'', ''A''], [0, 2])"
    by code_simp
  have g: "[0, 2 :: nat] \<noteq> []" by simp
  from run_trials_accuracy[OF t c g, of "const_sampler 1"]
  obtain acc counts where
    "run_trials (const_sampler 1) ''ACA'' ''A'' 3 = (Inr (acc, counts, Some [0, 2]), nat 3)"
    by blast
  moreover have "run_trials (const_sampler 1) ''ACA'' ''A'' 3 = (Inr (0, [(1, 3)], Some [0, 2]), 3)"
    by code_simp
  moreover have "run_trials (const_sampler 2) ''ACA'' ''A'' 3 = (Inr (1, [(2, 3)], Some [0, 2]), 3)"
    by code_simp
  ultimately show ?thesis
    using t c g by simp
qed

text \<open>
  Claim C4, counterexample. The check for an absent motif sits inside each trial: with a
  trial count of zero no trial runs and the division raises \<^verbatim>\<open>ZeroDivisionError\<close>
  instead, and with a negative count \<^verbatim>\<open>run_trials\<close> returns a result.
\<close>

theorem no_occurrence_needs_a_trial:
  "snd (classical_find_occurrences ''ACGTTACGTA'' ''ZZZZZ'') = [] \<and>
   run_trials (const_sampler 0) ''ACGTTACGTA'' ''ZZZZZ'' 0 = (Inl ZeroDivisionError, 0) \<and>
   ZeroDivisionError \<noteq> NoOccurrence \<and>
   run_trials (const_sampler 0) ''ACGTTACGTA'' ''ZZZZZ'' (- 1) = (Inr (0, [], None), 0)"
  by code_simp

text \<open>
  Claim C4, as amended. For a trial count of at least one and a motif with no exact
  occurrence, \<^verbatim>\<open>run_trials\<close> raises the \<^verbatim>\<open>ValueError\<close> "Motif nao aparece no genoma."
  in its first trial, and the sampler has not been invoked.
\<close>

theorem run_trials_no_occurrence:
  assumes "1 \<le> T" and "snd (classical_find_occurrences genome motif) = []"
  shows "run_trials smp genome motif T = (Inl (ValueError ''Motif nao aparece no genoma.''), 0)"
proof -
  from assms(1) obtain k where k: "nat T = Suc k"
    by (cases "nat T") simp_all
  have loop: "run_trials_loop smp genome motif (nat T) 0 0 [] None = (Inl NoOccurrence, 0)"
    unfolding k by (rule run_trials_loop_absent[OF assms(2)])
  show ?thesis
    by (simp add: run_trials_def loop NoOccurrence_def)
qed

theorem run_trials_no_occurrence_witness:
  "(1 :: int) \<le> 50 \<and> snd (classical_find_occurrences ''ACGTTACGTA'' ''ZZZZZ'') = [] \<and>
   run_trials (const_sampler 0) ''ACGTTACGTA'' ''ZZZZZ'' 50 =
     (Inl (ValueError ''Motif nao aparece no genoma.''), 0)"
proof -
  have t: "(1 :: int) \<le> 50" by simp
  have c: "snd (classical_find_occurrences ''ACGTTACGTA'' ''ZZZZZ'') = []" by code_simp
  from run_trials_no_occurrence[OF t c, of "const_sampler 0"] t c show ?thesis
    by simp
qed

section \<open>Normalisation of the inputs\<close>











end
